theory Spec2Isabelle
  imports Main "HOL-Library.Log_Nat" "HOL-Library.Multiset"
begin

section \<open>Data model of models.py\<close>

text \<open>
  Dates are proleptic Gregorian ordinals (Python's \<open>date.toordinal()\<close>): 0001-01-01 is 1
  and 9999-12-31 is 3652059. Arithmetic that leaves this range, and a \<open>timedelta\<close> of more
  than 999999999 days, raise \<open>OverflowError\<close>. A \<open>datetime\<close> is a count of microseconds.
  SQLite stores both as ISO text and compares them as text; for four-digit years that order
  is the chronological one, which is the order of the integers used here.
\<close>

type_synonym date = int
type_synonym datetime = int

definition timedelta_hours :: "int \<Rightarrow> int" where
  "timedelta_hours h = h * 3600000000"

definition weekday :: "date \<Rightarrow> int" where
  "weekday d = (d + 6) mod 7"

definition is_date :: "int \<Rightarrow> bool" where
  \<comment> \<open>\<open>date.min.toordinal() \<le> n \<le> date.max.toordinal()\<close>\<close>
  "is_date n = (1 \<le> n \<and> n \<le> 3652059)"

text \<open>config.py: the application and session settings.\<close>

record config =
  ATTENDANCE_THRESHOLD :: int
  ATTENDANCE_PERIOD_DAYS :: int
  SESSION_LIFETIME :: int

definition config_py :: config where
  "config_py = \<lparr> ATTENDANCE_THRESHOLD = 75, ATTENDANCE_PERIOD_DAYS = 30, SESSION_LIFETIME = 24 \<rparr>"

text \<open>
  The three tables of db_init.py. The \<open>created_at\<close> columns are filled by SQLite's
  \<open>DEFAULT CURRENT_TIMESTAMP\<close> and are neither written nor read by models.py; they are
  left out. Each table carries the largest row id handed out so far (AUTOINCREMENT).
\<close>

record student_row =
  s_id :: int
  s_username :: string
  s_password :: string
  s_name :: string
  s_email :: string

record attendance_row =
  a_id :: int
  a_student_id :: int
  a_date :: date
  a_logged_in :: int
  a_login_time :: "datetime option"

record session_row =
  ss_id :: int
  ss_student_id :: int
  ss_session_token :: string
  ss_expires_at :: datetime

record db =
  students :: "student_row list"
  students_seq :: int
  attendance :: "attendance_row list"
  attendance_seq :: int
  sessions :: "session_row list"
  sessions_seq :: int

definition empty_db :: db where
  "empty_db = \<lparr> students = [], students_seq = 0, attendance = [], attendance_seq = 0,
                 sessions = [], sessions_seq = 0 \<rparr>"

datatype error = IntegrityError | OverflowError

definition timedelta_days :: "int \<Rightarrow> error + int" where
  \<comment> \<open>\<open>datetime.timedelta(days=n)\<close>\<close>
  "timedelta_days n = (if \<bar>n\<bar> \<le> 999999999 then Inr n else Inl OverflowError)"

definition date_sub :: "date \<Rightarrow> int \<Rightarrow> error + date" where
  \<comment> \<open>\<open>date - timedelta\<close>\<close>
  "date_sub dt n = (if is_date (dt - n) then Inr (dt - n) else Inl OverflowError)"

definition window_start :: "date \<Rightarrow> int \<Rightarrow> error + date" where
  \<comment> \<open>\<open>end_date - datetime.timedelta(days=days-1)\<close>\<close>
  "window_start end_date days =
     (case timedelta_days (days - 1) of
        Inl e \<Rightarrow> Inl e
      | Inr delta \<Rightarrow> date_sub end_date delta)"

definition student_exists :: "db \<Rightarrow> int \<Rightarrow> bool" where
  "student_exists d sid = (\<exists>s \<in> set (students d). s_id s = sid)"

section \<open>Student\<close>

text \<open>
  \<open>INSERT INTO students\<close>: username and email are UNIQUE; a violation raises
  \<open>sqlite3.IntegrityError\<close>.
\<close>

definition insert_student :: "string \<Rightarrow> string \<Rightarrow> string \<Rightarrow> string \<Rightarrow> db \<Rightarrow> error + db" where
  "insert_student username hashed name email d =
     (if \<exists>s \<in> set (students d). s_username s = username \<or> s_email s = email
      then Inl IntegrityError
      else Inr (d\<lparr> students := students d @
                    [\<lparr> s_id = students_seq d + 1, s_username = username, s_password = hashed,
                       s_name = name, s_email = email \<rparr>],
                  students_seq := students_seq d + 1 \<rparr>))"

text \<open>
  \<open>Student.create\<close>; the SHA-256 digest is the parameter \<open>sha256\<close>. The
  \<open>except sqlite3.IntegrityError\<close> branch returns False and commits nothing.
\<close>

definition Student_create ::
  "(string \<Rightarrow> string) \<Rightarrow> string \<Rightarrow> string \<Rightarrow> string \<Rightarrow> string \<Rightarrow> db \<Rightarrow> error + (bool \<times> db)" where
  "Student_create sha256 username password name email d =
     (let hashed_password = sha256 password in
      case insert_student username hashed_password name email d of
        Inr d' \<Rightarrow> Inr (True, d')
      | Inl IntegrityError \<Rightarrow> Inr (False, d)
      | Inl e \<Rightarrow> Inl e)"

definition verify_password :: "(string \<Rightarrow> string) \<Rightarrow> string \<Rightarrow> string \<Rightarrow> db \<Rightarrow> int option" where
  "verify_password sha256 username password d =
     (let hashed_password = sha256 password in
      case find (\<lambda>s. s_username s = username \<and> s_password s = hashed_password) (students d) of
        Some s \<Rightarrow> Some (s_id s)
      | None \<Rightarrow> None)"

section \<open>Attendance\<close>

text \<open>
  \<open>INSERT INTO attendance\<close>: \<open>student_id\<close> is a foreign key into students (the
  connection helper switches \<open>PRAGMA foreign_keys\<close> on) and \<open>(student_id, date)\<close> is
  UNIQUE; either violation raises \<open>sqlite3.IntegrityError\<close>.
\<close>

type_synonym attendance_params = "int \<times> date \<times> int \<times> datetime option"

definition insert_attendance :: "attendance_params \<Rightarrow> db \<Rightarrow> error + db" where
  "insert_attendance p d =
     (case p of (student_id, dt, logged_in, login_time) \<Rightarrow>
        if \<not> student_exists d student_id then Inl IntegrityError
        else if \<exists>r \<in> set (attendance d). a_student_id r = student_id \<and> a_date r = dt
        then Inl IntegrityError
        else Inr (d\<lparr> attendance := attendance d @
                      [\<lparr> a_id = attendance_seq d + 1, a_student_id = student_id, a_date = dt,
                         a_logged_in = logged_in, a_login_time = login_time \<rparr>],
                    attendance_seq := attendance_seq d + 1 \<rparr>))"

text \<open>\<open>cursor.executemany\<close>: the rows one after the other, stopping at the first error.\<close>

fun executemany_insert_attendance :: "attendance_params list \<Rightarrow> db \<Rightarrow> error + db" where
  "executemany_insert_attendance [] d = Inr d"
| "executemany_insert_attendance (p # ps) d =
     (case insert_attendance p d of
        Inl e \<Rightarrow> Inl e
      | Inr d' \<Rightarrow> executemany_insert_attendance ps d')"

text \<open>
  \<open>Attendance.mark_attendance\<close>, with \<open>date.today()\<close> and \<open>datetime.now()\<close> as the
  parameters \<open>today\<close> and \<open>now\<close>. An exception leaves the database as it was (nothing was
  committed).
\<close>

definition mark_attendance :: "int \<Rightarrow> date \<Rightarrow> datetime \<Rightarrow> db \<Rightarrow> error + (bool \<times> db)" where
  "mark_attendance student_id today now d =
     (case find (\<lambda>r. a_student_id r = student_id \<and> a_date r = today) (attendance d) of
        Some existing \<Rightarrow>
          Inr (True, d\<lparr> attendance :=
                 map (\<lambda>r. if a_id r = a_id existing
                           then r\<lparr> a_logged_in := 1, a_login_time := Some now \<rparr> else r)
                     (attendance d) \<rparr>)
      | None \<Rightarrow>
          (case insert_attendance (student_id, today, 1, Some now) d of
             Inl e \<Rightarrow> Inl e
           | Inr d' \<Rightarrow> Inr (True, d')))"

text \<open>
  The \<open>while\<close> loop of \<open>get_attendance_percentage\<close> that collects the weekdays of the
  window; \<open>date.today()\<close> is taken to be the same day throughout the call. The step
  \<open>current_date += timedelta(days=1)\<close> raises when the next day is past \<open>date.max\<close>.
\<close>

function missing_days_loop ::
  "int \<Rightarrow> date \<Rightarrow> date \<Rightarrow> date \<Rightarrow> attendance_params list \<Rightarrow> error + attendance_params list" where
  "missing_days_loop student_id current_date end_date today missing_days =
     (if current_date \<le> end_date \<and> current_date \<le> today
      then if is_date (current_date + 1)
           then missing_days_loop student_id (current_date + 1) end_date today
                  (if weekday current_date < 5
                   then missing_days @ [(student_id, current_date, 0, None)]
                   else missing_days)
           else Inl OverflowError
      else Inr missing_days)"
  by pat_completeness auto
termination
  by (relation "measure (\<lambda>(s, c, e, t, m). nat (e + 1 - c))") auto

declare missing_days_loop.simps [simp del]

subsection \<open>Python floats\<close>

text \<open>
  A finite IEEE 754 binary64 value is modelled by the rational it denotes. \<open>binary64\<close>
  rounds a rational to the nearest value with a 53-bit significand, ties to even; the
  exponent range is not modelled (the values of this program lie between 0 and 100, and a
  quotient of two row counts is far above the subnormal range).
\<close>

definition pow2 :: "int \<Rightarrow> rat" where
  "pow2 e = (if 0 \<le> e then 2 ^ nat e else 1 / 2 ^ nat (- e))"

definition round_half_even :: "rat \<Rightarrow> int" where
  "round_half_even x =
     (let f = \<lfloor>x\<rfloor>; r = x - of_int f in
      if r < 1 / 2 then f else if 1 / 2 < r then f + 1 else if even f then f else f + 1)"

definition ilog2 :: "rat \<Rightarrow> int" where
  \<comment> \<open>the integer \<open>e\<close> with \<open>2^e \<le> x < 2^(e+1)\<close>, for positive \<open>x\<close>\<close>
  "ilog2 x =
     (if 1 \<le> x then bitlen \<lfloor>x\<rfloor> - 1
      else let k = bitlen \<lfloor>1 / x\<rfloor> in
           if x * 2 ^ nat (k - 1) = 1 then - (k - 1) else - k)"

definition binary64 :: "rat \<Rightarrow> rat" where
  "binary64 x =
     (if x = 0 then 0
      else let e = ilog2 \<bar>x\<bar> - 52 in
           sgn x * of_int (round_half_even (\<bar>x\<bar> / pow2 e)) * pow2 e)"

definition int_truediv :: "int \<Rightarrow> int \<Rightarrow> rat" where
  \<comment> \<open>Python's \<open>a / b\<close> on ints with \<open>b \<noteq> 0\<close>: the correctly rounded quotient\<close>
  "int_truediv a b = binary64 (of_int a / of_int b)"

definition float_mul :: "rat \<Rightarrow> rat \<Rightarrow> rat" where
  "float_mul x y = binary64 (x * y)"

definition float_round2 :: "rat \<Rightarrow> rat" where
  \<comment> \<open>Python's \<open>round(x, 2)\<close> on a float: the float nearest to the correctly rounded
      two-digit decimal of \<open>x\<close>\<close>
  "float_round2 x = binary64 (of_int (round_half_even (x * 100)) / 100)"

subsection \<open>Percentage and history\<close>

record stats =
  percentage :: rat
  present_days :: nat
  total_days :: nat
  start_date :: date
  end_date :: date

definition in_window :: "int \<Rightarrow> date \<Rightarrow> date \<Rightarrow> attendance_row \<Rightarrow> bool" where
  \<comment> \<open>\<open>WHERE student_id = ? AND date BETWEEN ? AND ?\<close>\<close>
  "in_window student_id start end r =
     (a_student_id r = student_id \<and> start \<le> a_date r \<and> a_date r \<le> end)"

definition get_attendance_percentage ::
  "config \<Rightarrow> int \<Rightarrow> int \<Rightarrow> date \<Rightarrow> db \<Rightarrow> error + (stats \<times> db)" where
  "get_attendance_percentage cfg student_id days0 today d =
     (let days = (if days0 = 30 then ATTENDANCE_PERIOD_DAYS cfg else days0);
          end_date = today
      in case window_start end_date days of
           Inl e \<Rightarrow> Inl e
         | Inr start \<Rightarrow>
      let start_date = start;
          record_count = length (filter (in_window student_id start_date end_date) (attendance d));
          finish = (\<lambda>record_count d'.
             let present_days = length (filter (\<lambda>r. in_window student_id start_date end_date r
                                                      \<and> a_logged_in r = 1) (attendance d'));
                 total_days = record_count;
                 percentage = (if total_days > 0
                               then float_mul (int_truediv (int present_days) (int total_days)) 100
                               else 0)
             in Inr (\<lparr> percentage = (if total_days > 0 then float_round2 percentage else 0),
                       present_days = present_days, total_days = total_days,
                       start_date = start_date, end_date = end_date \<rparr>, d'))
      in if record_count = 0
         then (case missing_days_loop student_id start_date end_date today [] of
                 Inl e \<Rightarrow> Inl e
               | Inr missing_days \<Rightarrow>
                   if missing_days \<noteq> []
                   then (case executemany_insert_attendance missing_days d of
                           Inl e \<Rightarrow> Inl e
                         | Inr d' \<Rightarrow> finish (length missing_days) d')
                   else finish record_count d)
         else finish record_count d)"

type_synonym history_entry = "date \<times> int \<times> datetime option"

definition get_attendance_history ::
  "int \<Rightarrow> int \<Rightarrow> date \<Rightarrow> db \<Rightarrow> error + (history_entry list \<times> db)" where
  "get_attendance_history student_id days today d =
     (let end_date = today
      in case window_start end_date days of
           Inl e \<Rightarrow> Inl e
         | Inr start \<Rightarrow>
      let start_date = start;
          attendance_records =
            map (\<lambda>r. (a_date r, a_logged_in r, a_login_time r))
              (rev (sort_key a_date (filter (in_window student_id start_date end_date) (attendance d))))
      in if attendance_records = [] then Inr ([(end_date, 0, None)], d)
         else Inr (attendance_records, d))"

section \<open>Session\<close>

text \<open>
  \<open>Session.create\<close>, with \<open>secrets.token_hex(16)\<close> and \<open>datetime.now()\<close> as the
  parameters \<open>token\<close> and \<open>now\<close>. The configuration is a parameter so that its role can be
  stated; the source does not read it here. \<open>student_id\<close> is a foreign key.
\<close>

definition Session_create :: "config \<Rightarrow> int \<Rightarrow> string \<Rightarrow> datetime \<Rightarrow> db \<Rightarrow> error + (string \<times> db)" where
  "Session_create cfg student_id token now d =
     (let expires_at = now + timedelta_hours 24 in
      if \<not> student_exists d student_id then Inl IntegrityError
      else Inr (token, d\<lparr> sessions := sessions d @
                           [\<lparr> ss_id = sessions_seq d + 1, ss_student_id = student_id,
                              ss_session_token = token, ss_expires_at = expires_at \<rparr>],
                         sessions_seq := sessions_seq d + 1 \<rparr>))"

definition Session_validate :: "string \<Rightarrow> datetime \<Rightarrow> db \<Rightarrow> int option \<times> db" where
  "Session_validate token now d =
     (case find (\<lambda>s. ss_session_token s = token \<and> ss_expires_at s > now) (sessions d) of
        Some result \<Rightarrow> (Some (ss_student_id result), d)
      | None \<Rightarrow> (None, d))"

definition Session_delete :: "string \<Rightarrow> db \<Rightarrow> bool \<times> db" where
  "Session_delete token d =
     (let gone = filter (\<lambda>s. ss_session_token s = token) (sessions d) in
      (length gone > 0, d\<lparr> sessions := filter (\<lambda>s. ss_session_token s \<noteq> token) (sessions d) \<rparr>))"

section \<open>Notions used to state the properties\<close>

text \<open>
  What the schema of db_init.py guarantees of the attendance table: \<open>id\<close> is a primary
  key handed out by AUTOINCREMENT, and \<open>(student_id, date)\<close> is UNIQUE.
\<close>

definition schema_ok :: "db \<Rightarrow> bool" where
  "schema_ok d =
     (distinct (map a_id (attendance d)) \<and>
      (\<forall>r \<in> set (attendance d). a_id r \<le> attendance_seq d) \<and>
      distinct (map (\<lambda>r. (a_student_id r, a_date r)) (attendance d)))"

text \<open>The rows that a successful \<open>executemany\<close> appends, with their fresh ids.\<close>

fun new_rows :: "int \<Rightarrow> attendance_params list \<Rightarrow> attendance_row list" where
  "new_rows n [] = []"
| "new_rows n (p # ps) =
     (case p of (student_id, dt, logged_in, login_time) \<Rightarrow>
        \<lparr> a_id = n + 1, a_student_id = student_id, a_date = dt,
          a_logged_in = logged_in, a_login_time = login_time \<rparr>) # new_rows (n + 1) ps"

definition weekdays_between :: "date \<Rightarrow> date \<Rightarrow> date list" where
  "weekdays_between start end = filter (\<lambda>dt. weekday dt < 5) [start..end]"

definition records_of :: "db \<Rightarrow> int \<Rightarrow> date \<Rightarrow> attendance_row list" where
  "records_of d student_id dt =
     filter (\<lambda>r. a_student_id r = student_id \<and> a_date r = dt) (attendance d)"

text \<open>The state of one day's record: no row, a row that is not present, a present row.\<close>

datatype day_state = NONE | ABSENT | PRESENT

definition day_state_of :: "db \<Rightarrow> int \<Rightarrow> date \<Rightarrow> day_state" where
  "day_state_of d student_id dt =
     (case find (\<lambda>r. a_student_id r = student_id \<and> a_date r = dt) (attendance d) of
        None \<Rightarrow> NONE
      | Some r \<Rightarrow> if a_logged_in r = 1 then PRESENT else ABSENT)"

text \<open>
  The three ledger operations as requests, and the database after one of them; a request
  that raises commits nothing.
\<close>

datatype operation =
    Mark_present int date datetime
  | Percentage int int date
  | History int int date

fun run_op :: "config \<Rightarrow> operation \<Rightarrow> db \<Rightarrow> db" where
  "run_op cfg (Mark_present student_id today now) d =
     (case mark_attendance student_id today now d of Inl e \<Rightarrow> d | Inr (b, d') \<Rightarrow> d')"
| "run_op cfg (Percentage student_id days today) d =
     (case get_attendance_percentage cfg student_id days today d of Inl e \<Rightarrow> d | Inr (st, d') \<Rightarrow> d')"
| "run_op cfg (History student_id days today) d =
     (case get_attendance_history student_id days today d of Inl e \<Rightarrow> d | Inr (h, d') \<Rightarrow> d')"

fun run_ops :: "config \<Rightarrow> operation list \<Rightarrow> db \<Rightarrow> db" where
  "run_ops cfg [] d = d"
| "run_ops cfg (x # xs) d = run_ops cfg xs (run_op cfg x d)"

text \<open>Successive logins of one user on one day, at the given instants.\<close>

fun mark_all :: "int \<Rightarrow> date \<Rightarrow> datetime list \<Rightarrow> db \<Rightarrow> error + db" where
  "mark_all student_id today [] d = Inr d"
| "mark_all student_id today (now # nows) d =
     (case mark_attendance student_id today now d of
        Inl e \<Rightarrow> Inl e
      | Inr (b, d') \<Rightarrow> mark_all student_id today nows d')"

text \<open>The database after the backfill of the weekdays from \<open>s\<close> to \<open>e\<close>.\<close>

definition backfilled :: "db \<Rightarrow> int \<Rightarrow> date \<Rightarrow> date \<Rightarrow> db" where
  "backfilled d sid s e =
     d\<lparr> attendance := attendance d @
          new_rows (attendance_seq d) (map (\<lambda>dt. (sid, dt, 0, None)) (weekdays_between s e)),
        attendance_seq := attendance_seq d + int (length (weekdays_between s e)) \<rparr>"

text \<open>A database with the one student alice and an empty ledger, for the instances.\<close>

definition alice_db :: db where
  "alice_db = \<lparr> students = [\<lparr> s_id = 1, s_username = ''alice'', s_password = ''h'',
                                s_name = ''Alice'', s_email = ''alice@example.com'' \<rparr>],
                  students_seq = 1, attendance = [], attendance_seq = 0,
                  sessions = [], sessions_seq = 0 \<rparr>"

text \<open>The ledger of alice after the backfill of the week ending Wednesday 2026-11-04.\<close>

definition backfilled_alice_db :: db where
  "backfilled_alice_db = backfilled alice_db 1 739918 739924"

text \<open>The ledger of alice after one login on Wednesday 2026-11-04.\<close>

definition marked_alice_db :: db where
  "marked_alice_db =
     alice_db\<lparr> attendance := [\<lparr> a_id = 1, a_student_id = 1, a_date = 739924,
                                  a_logged_in = 1, a_login_time = Some 100 \<rparr>],
               attendance_seq := 1 \<rparr>"


text \<open>Alice present on Sunday 2026-10-25 and on Wednesday 2026-11-04, ten days apart.\<close>

definition ten_days_alice_db :: db where
  "ten_days_alice_db =
     alice_db\<lparr> attendance :=
         [\<lparr> a_id = 1, a_student_id = 1, a_date = 739914, a_logged_in = 1, a_login_time = Some 100 \<rparr>,
          \<lparr> a_id = 2, a_student_id = 1, a_date = 739924, a_logged_in = 1, a_login_time = Some 200 \<rparr>],
       attendance_seq := 2 \<rparr>"

section \<open>Properties\<close>

subsection \<open>Accuracy of the float operations\<close>














lemma missing_days_loop_eq:
  assumes "1 \<le> c"
  shows "missing_days_loop sid c e today acc =
     (if c \<le> min e today \<and> 3652059 \<le> min e today then Inl OverflowError
      else Inr (acc @ map (\<lambda>dt. (sid, dt, 0, None)) (weekdays_between c (min e today))))"
  using assms
proof (induction sid c e today acc rule: missing_days_loop.induct)
  case (1 sid c e today acc)
  show ?case
  proof (cases "c \<le> e \<and> c \<le> today")
    case False
    then have "[c..min e today] = []" by auto
    then show ?thesis
      using False by (subst missing_days_loop.simps) (auto simp: weekdays_between_def)
  next
    case True
    then have u: "[c..min e today] = c # [c + 1..min e today]"
      by (simp add: upto_rec1)
    show ?thesis
    proof (cases "is_date (c + 1)")
      case False
      then have "3652059 \<le> c" using "1.prems" by (simp add: is_date_def)
      then show ?thesis
        using True False by (subst missing_days_loop.simps) auto
    next
      case d: True
      have ih: "missing_days_loop sid (c + 1) e today
                  (if weekday c < 5 then acc @ [(sid, c, 0, None)] else acc) =
         (if c + 1 \<le> min e today \<and> 3652059 \<le> min e today then Inl OverflowError
          else Inr ((if weekday c < 5 then acc @ [(sid, c, 0, None)] else acc) @
                 map (\<lambda>dt. (sid, dt, 0, None)) (weekdays_between (c + 1) (min e today))))"
        using "1.IH" [OF True d] "1.prems" by simp
      have c1: "c + 1 \<le> 3652059" using d by (simp add: is_date_def)
      show ?thesis
      proof (cases "3652059 \<le> min e today")
        case True
        then have "c + 1 \<le> min e today" using c1 by linarith
        then show ?thesis
          using \<open>c \<le> e \<and> c \<le> today\<close> d True ih
          by (subst missing_days_loop.simps) simp
      next
        case False
        then show ?thesis
          using \<open>c \<le> e \<and> c \<le> today\<close> d ih
          by (subst missing_days_loop.simps) (simp add: weekdays_between_def u)
      qed
    qed
  qed
qed

lemma window_start_eq:
  "window_start today w =
     (if \<bar>w - 1\<bar> \<le> 999999999 \<and> is_date (today - (w - 1)) then Inr (today - (w - 1))
      else Inl OverflowError)"
  by (simp add: window_start_def timedelta_days_def date_sub_def)

lemma window_start_dates:
  assumes "is_date today" and "is_date (today - (w - 1))"
  shows "window_start today w = Inr (today - (w - 1))"
proof -
  have "\<bar>w - 1\<bar> \<le> 999999999"
    using assms by (simp add: is_date_def abs_le_iff)
  then show ?thesis using assms(2) by (simp add: window_start_eq)
qed

lemma executemany_ok:
  assumes "\<forall>p \<in> set ps. student_exists d (fst p)"
    and "distinct (map (\<lambda>p. (fst p, fst (snd p))) ps)"
    and "\<forall>p \<in> set ps. \<forall>r \<in> set (attendance d). \<not> (a_student_id r = fst p \<and> a_date r = fst (snd p))"
  shows "executemany_insert_attendance ps d =
           Inr (d\<lparr> attendance := attendance d @ new_rows (attendance_seq d) ps,
                   attendance_seq := attendance_seq d + int (length ps) \<rparr>)"
  using assms
proof (induction ps arbitrary: d)
  case Nil
  then show ?case by simp
next
  case (Cons p ps)
  obtain sid dt li lt where p: "p = (sid, dt, li, lt)" by (cases p) auto
  let ?d' = "d\<lparr> attendance := attendance d @ new_rows (attendance_seq d) [p],
                 attendance_seq := attendance_seq d + 1 \<rparr>"
  have ins: "insert_attendance p d = Inr ?d'"
    using Cons.prems by (auto simp: insert_attendance_def p)
  have "executemany_insert_attendance ps ?d' =
      Inr (?d'\<lparr> attendance := attendance ?d' @ new_rows (attendance_seq ?d') ps,
                   attendance_seq := attendance_seq ?d' + int (length ps) \<rparr>)"
    apply (rule Cons.IH)
    using Cons.prems by (auto simp: student_exists_def p)
  then show ?case
    using ins by (simp add: p add.assoc add.commute)
qed


lemma new_rows_props:
  "map (\<lambda>r. (a_student_id r, a_date r, a_logged_in r, a_login_time r)) (new_rows n ps) = ps"
  "map a_id (new_rows n ps) = map (\<lambda>i. n + 1 + int i) [0..<length ps]"
  "length (new_rows n ps) = length ps"
proof -
  show "map (\<lambda>r. (a_student_id r, a_date r, a_logged_in r, a_login_time r)) (new_rows n ps) = ps"
    by (induction ps arbitrary: n) (auto split: prod.splits)
  show "length (new_rows n ps) = length ps"
    by (induction ps arbitrary: n) (auto split: prod.splits)
  show "map a_id (new_rows n ps) = map (\<lambda>i. n + 1 + int i) [0..<length ps]"
  proof (induction ps arbitrary: n)
    case Nil
    then show ?case by simp
  next
    case (Cons p ps)
    have "[0..<length (p # ps)] = 0 # map Suc [0..<length ps]"
      by (simp add: upt_conv_Cons map_Suc_upt del: upt_Suc)
    then show ?case
      using Cons [of "n + 1"] by (simp add: comp_def add.assoc add.commute split: prod.splits)
  qed
qed

lemma new_rows_absent:
  "set (new_rows n (map (\<lambda>dt. (sid, dt, 0, None)) ds)) \<subseteq>
     {r. a_student_id r = sid \<and> a_date r \<in> set ds \<and> a_logged_in r = 0 \<and> a_login_time r = None}"
  by (induction ds arbitrary: n) auto

lemma weekdays_between_set:
  "set (weekdays_between s e) = {dt. s \<le> dt \<and> dt \<le> e \<and> weekday dt < 5}"
  by (auto simp: weekdays_between_def)

lemma weekdays_between_distinct: "distinct (weekdays_between s e)"
  by (simp add: weekdays_between_def)

lemma filter_window_new:
  "filter (in_window sid s e) (new_rows n (map (\<lambda>dt. (sid, dt, 0, None)) (weekdays_between s e)))
     = new_rows n (map (\<lambda>dt. (sid, dt, 0, None)) (weekdays_between s e))"
  using new_rows_absent [of n sid "weekdays_between s e"]
  by (intro filter_True) (auto simp: in_window_def weekdays_between_set)

lemma filter_present_new:
  "filter (\<lambda>r. in_window sid s e r \<and> a_logged_in r = 1)
      (new_rows n (map (\<lambda>dt. (sid, dt, 0, None)) ds)) = []"
  using new_rows_absent [of n sid ds]
  by (auto simp: filter_empty_conv)

lemma float_zero: "float_round2 (float_mul (int_truediv 0 t) 100) = 0"
  by (simp add: float_round2_def float_mul_def int_truediv_def binary64_def round_half_even_def)

lemma gap_overflow:
  assumes "window_start today (if days0 = 30 then ATTENDANCE_PERIOD_DAYS cfg else days0) = Inl e"
  shows "get_attendance_percentage cfg sid days0 today d = Inl e"
  using assms unfolding get_attendance_percentage_def Let_def by simp

lemma gap_loop_overflow:
  assumes ws: "window_start today (if days0 = 30 then ATTENDANCE_PERIOD_DAYS cfg else days0) = Inr s"
    and empty: "filter (in_window sid s today) (attendance d) = []"
    and last: "s \<le> today" "3652059 \<le> today"
  shows "get_attendance_percentage cfg sid days0 today d = Inl OverflowError"
proof -
  have s1: "1 \<le> s"
    using ws by (auto simp: window_start_eq is_date_def split: if_splits)
  have loop: "missing_days_loop sid s today today [] = Inl OverflowError"
    using last by (simp add: missing_days_loop_eq [OF s1])
  show ?thesis
    using ws empty loop unfolding get_attendance_percentage_def Let_def by simp
qed

lemma gap_no_student:
  assumes ws: "window_start today (if days0 = 30 then ATTENDANCE_PERIOD_DAYS cfg else days0) = Inr s"
    and empty: "filter (in_window sid s today) (attendance d) = []"
    and ok: "\<not> (s \<le> today \<and> 3652059 \<le> today)"
    and nex: "\<not> student_exists d sid"
    and r: "get_attendance_percentage cfg sid days0 today d = Inr (st, d')"
  shows "d' = d"
proof -
  have s1: "1 \<le> s"
    using ws by (auto simp: window_start_eq is_date_def split: if_splits)
  have loop: "missing_days_loop sid s today today [] =
              Inr (map (\<lambda>dt. (sid, dt, 0, None)) (weekdays_between s today))"
    using ok by (simp add: missing_days_loop_eq [OF s1])
  show ?thesis
  proof (cases "weekdays_between s today = []")
    case True
    then show ?thesis
      using ws empty loop r unfolding get_attendance_percentage_def Let_def by auto
  next
    case False
    then obtain x xs where w: "weekdays_between s today = x # xs"
      by (cases "weekdays_between s today") auto
    have "executemany_insert_attendance (map (\<lambda>dt. (sid, dt, 0, None)) (weekdays_between s today)) d
            = Inl IntegrityError"
      using nex by (simp add: w insert_attendance_def)
    then have "get_attendance_percentage cfg sid days0 today d = Inl IntegrityError"
      using ws empty loop False unfolding get_attendance_percentage_def Let_def by simp
    then show ?thesis using r by simp
  qed
qed

lemma gap_backfill:
  assumes ex: "student_exists d sid"
    and ws: "window_start today (if days0 = 30 then ATTENDANCE_PERIOD_DAYS cfg else days0) = Inr s"
    and empty: "filter (in_window sid s today) (attendance d) = []"
    and ok: "\<not> (s \<le> today \<and> 3652059 \<le> today)"
  shows "get_attendance_percentage cfg sid days0 today d =
     Inr (\<lparr> percentage = 0, present_days = 0,
            total_days = length (weekdays_between s today),
            start_date = s, end_date = today \<rparr>,
          backfilled d sid s today)"
proof -
  define md where "md = map (\<lambda>dt. (sid, dt, 0::int, None::int option)) (weekdays_between s today)"
  have s1: "1 \<le> s"
    using ws by (auto simp: window_start_eq is_date_def split: if_splits)
  have e1: "filter (\<lambda>r. in_window sid s today r \<and> a_logged_in r = 1) (attendance d) = []"
    using empty by (auto simp: filter_empty_conv)
  have loop: "missing_days_loop sid s today today [] = Inr md"
    using ok by (simp add: missing_days_loop_eq [OF s1] md_def)
  have none: "\<forall>p \<in> set md. \<forall>r \<in> set (attendance d). \<not> (a_student_id r = fst p \<and> a_date r = fst (snd p))"
    using empty by (auto simp: md_def filter_empty_conv in_window_def weekdays_between_set)
  have dist: "distinct (map (\<lambda>p. (fst p, fst (snd p))) md)"
    by (simp add: md_def comp_def distinct_map weekdays_between_distinct inj_on_def)
  have exm: "executemany_insert_attendance md d = Inr (backfilled d sid s today)"
    using executemany_ok [OF _ dist none] ex
    by (simp add: md_def backfilled_def)
  show ?thesis
  proof (cases "md = []")
    case True
    then have w: "weekdays_between s today = []" by (simp add: md_def)
    then have "backfilled d sid s today = d" by (simp add: backfilled_def)
    then show ?thesis
      using True empty e1 loop w ws
      unfolding get_attendance_percentage_def Let_def
      by simp
  next
    case False
    have p0: "filter (\<lambda>r. in_window sid s today r \<and> a_logged_in r = 1)
               (attendance (backfilled d sid s today)) = []"
      using e1 by (simp add: backfilled_def filter_present_new)
    have len: "length md = length (weekdays_between s today)" by (simp add: md_def)
    show ?thesis
      using False empty loop exm p0 len float_zero ws
      unfolding get_attendance_percentage_def Let_def
      by simp
  qed
qed

lemma gap_existing:
  assumes ws: "window_start today (if days0 = 30 then ATTENDANCE_PERIOD_DAYS cfg else days0) = Inr s"
    and ne: "filter (in_window sid s today) (attendance d) \<noteq> []"
  shows "\<exists>st. get_attendance_percentage cfg sid days0 today d = Inr (st, d) \<and>
     end_date st = today \<and> start_date st = s \<and>
     total_days st = length (filter (in_window sid s today) (attendance d)) \<and>
     present_days st = length (filter (\<lambda>r. in_window sid s today r \<and> a_logged_in r = 1) (attendance d)) \<and>
     percentage st = float_round2 (float_mul (int_truediv (int (present_days st)) (int (total_days st))) 100)"
  using assms unfolding get_attendance_percentage_def Let_def
  by simp










lemma filter_key_single:
  assumes "distinct (map f xs)" and "x \<in> set xs"
  shows "filter (\<lambda>r. f r = f x) xs = [x]"
  using assms
proof (induction xs)
  case Nil
  then show ?case by simp
next
  case (Cons y ys)
  show ?case
  proof (cases "y = x")
    case True
    have "\<forall>r \<in> set ys. f r \<noteq> f x"
      using Cons.prems(1) True by (auto simp: image_iff)
    then have "filter (\<lambda>r. f r = f x) ys = []"
      by (simp add: filter_empty_conv)
    then show ?thesis using True by simp
  next
    case False
    then have "x \<in> set ys" using Cons.prems(2) by simp
    moreover have "f y \<noteq> f x"
      using Cons.prems(1) \<open>x \<in> set ys\<close> by auto
    ultimately show ?thesis using Cons by simp
  qed
qed

lemma filter_map_same:
  assumes "\<And>r. P (f r) = P r"
  shows "filter P (map f xs) = map f (filter P xs)"
  using assms by (induction xs) auto

lemma mark_existing:
  assumes ok: "schema_ok d"
    and f: "find (\<lambda>r. a_student_id r = sid \<and> a_date r = today) (attendance d) = Some x"
  shows "\<exists>d'. mark_attendance sid today now d = Inr (True, d') \<and> schema_ok d' \<and>
           students d' = students d \<and>
           records_of d' sid today = [x\<lparr> a_logged_in := 1, a_login_time := Some now \<rparr>]"
proof -
  let ?upd = "\<lambda>r. if a_id r = a_id x then r\<lparr> a_logged_in := 1, a_login_time := Some now \<rparr> else r"
  let ?d' = "d\<lparr> attendance := map ?upd (attendance d) \<rparr>"
  have xin: "x \<in> set (attendance d)" and xk: "a_student_id x = sid" "a_date x = today"
    using f by (auto simp: find_Some_iff)
  have m: "mark_attendance sid today now d = Inr (True, ?d')"
    using f by (simp add: mark_attendance_def)
  have c1: "a_id \<circ> ?upd = a_id"
    by (auto simp: fun_eq_iff)
  have c2: "(\<lambda>r. (a_student_id r, a_date r)) \<circ> ?upd = (\<lambda>r. (a_student_id r, a_date r))"
    by (auto simp: fun_eq_iff)
  have ok': "schema_ok ?d'"
    using ok by (auto simp: schema_ok_def c1 c2)
  have d1: "distinct (map a_id (attendance d))"
    and d2: "distinct (map (\<lambda>r. (a_student_id r, a_date r)) (attendance d))"
    using ok by (auto simp: schema_ok_def)
  have one: "filter (\<lambda>r. a_student_id r = sid \<and> a_date r = today) (attendance d) = [x]"
    using filter_key_single [OF d2 xin] xk by (simp add: prod_eq_iff)
  have "filter (\<lambda>r. a_student_id r = sid \<and> a_date r = today) (map ?upd (attendance d)) =
        map ?upd (filter (\<lambda>r. a_student_id r = sid \<and> a_date r = today) (attendance d))"
    by (rule filter_map_same) auto
  then have "records_of ?d' sid today = [x\<lparr> a_logged_in := 1, a_login_time := Some now \<rparr>]"
    using one by (simp add: records_of_def)
  then show ?thesis using m ok' by simp
qed

lemma mark_new:
  assumes ok: "schema_ok d" and ex: "student_exists d sid"
    and f: "find (\<lambda>r. a_student_id r = sid \<and> a_date r = today) (attendance d) = None"
  shows "\<exists>d' r. mark_attendance sid today now d = Inr (True, d') \<and> schema_ok d' \<and>
           students d' = students d \<and>
           records_of d' sid today = [r] \<and> a_logged_in r = 1 \<and> a_login_time r = Some now"
proof -
  have none: "\<forall>r \<in> set (attendance d). \<not> (a_student_id r = sid \<and> a_date r = today)"
    using f by (simp add: find_None_iff)
  let ?r = "\<lparr> a_id = attendance_seq d + 1, a_student_id = sid, a_date = today,
              a_logged_in = 1, a_login_time = Some now \<rparr>"
  let ?d' = "d\<lparr> attendance := attendance d @ [?r], attendance_seq := attendance_seq d + 1 \<rparr>"
  have m: "mark_attendance sid today now d = Inr (True, ?d')"
    using f ex none by (simp add: mark_attendance_def insert_attendance_def)
  have ok': "schema_ok ?d'"
    using ok none by (fastforce simp: schema_ok_def)
  have "filter (\<lambda>r. a_student_id r = sid \<and> a_date r = today) (attendance d) = []"
    using none by (auto simp: filter_empty_conv)
  then have "records_of ?d' sid today = [?r]"
    by (simp add: records_of_def)
  then show ?thesis using m ok' by simp
qed

lemma mark_once:
  assumes ok: "schema_ok d" and ex: "student_exists d sid"
  shows "\<exists>d' r. mark_attendance sid today now d = Inr (True, d') \<and> schema_ok d' \<and>
           student_exists d' sid \<and>
           records_of d' sid today = [r] \<and> a_logged_in r = 1 \<and> a_login_time r = Some now"
proof (cases "find (\<lambda>r. a_student_id r = sid \<and> a_date r = today) (attendance d)")
  case None
  then show ?thesis
    using mark_new [OF ok ex None, of now] ex by (auto simp: student_exists_def)
next
  case (Some x)
  then show ?thesis
    using mark_existing [OF ok Some, of now] ex by (auto simp: student_exists_def)
qed

text \<open>
  Claim C3. For a student of a database that satisfies the schema, after any non-empty
  sequence of \<open>mark_attendance\<close> calls on one day (whatever row the day had before, an
  absent row of the backfill included) every call succeeds and exactly one row exists
  for that student and date; it has \<open>logged_in = 1\<close> and its login time is the one of the
  last call.
\<close>

theorem mark_present_upsert:
  assumes "schema_ok d" and "student_exists d sid" and "nows \<noteq> []"
  shows "\<exists>d' r. mark_all sid today nows d = Inr d' \<and> records_of d' sid today = [r] \<and>
           a_logged_in r = 1 \<and> a_login_time r = Some (last nows)"
  using assms
proof (induction nows arbitrary: d)
  case Nil
  then show ?case by simp
next
  case (Cons now nows)
  from mark_once [OF Cons.prems(1,2), of today now] obtain d1 r1 where
    m: "mark_attendance sid today now d = Inr (True, d1)" and ok1: "schema_ok d1"
    and ex1: "student_exists d1 sid"
    and r1: "records_of d1 sid today = [r1]" "a_logged_in r1 = 1" "a_login_time r1 = Some now"
    by blast
  show ?case
  proof (cases "nows = []")
    case True
    then show ?thesis using m r1 by simp
  next
    case False
    from Cons.IH [OF ok1 ex1 False] show ?thesis
      using m False by simp
  qed
qed

theorem mark_present_upsert_witness:
  "schema_ok backfilled_alice_db \<and> student_exists backfilled_alice_db 1 \<and>
   day_state_of backfilled_alice_db 1 739924 = ABSENT \<and>
   (\<exists>d' r. mark_all 1 739924 [100, 200] backfilled_alice_db = Inr d' \<and>
      records_of d' 1 739924 = [r] \<and> a_logged_in r = 1 \<and> a_login_time r = Some 200)"
proof -
  have a: "attendance backfilled_alice_db = new_rows 0 (map (\<lambda>dt. (1, dt, 0, None)) [739918, 739919, 739922, 739923, 739924])"
    by (simp add: backfilled_alice_db_def backfilled_def alice_db_def weekdays_between_def weekday_def)
  have h1: "schema_ok backfilled_alice_db"
    unfolding schema_ok_def a by (simp add: backfilled_alice_db_def backfilled_def alice_db_def weekdays_between_def weekday_def)
  have h2: "student_exists backfilled_alice_db 1"
    by (simp add: student_exists_def backfilled_alice_db_def backfilled_def alice_db_def)
  have h3: "day_state_of backfilled_alice_db 1 739924 = ABSENT"
    unfolding day_state_of_def a by simp
  show ?thesis
    using mark_present_upsert [OF h1 h2, of "[100, 200]" 739924] h1 h2 h3 by simp
qed

lemma find_append_cases:
  "find P (xs @ ys) = (case find P xs of Some x \<Rightarrow> Some x | None \<Rightarrow> find P ys)"
  by (induction xs) auto

lemma find_map_same:
  assumes "\<And>r. P (f r) = P r"
  shows "find P (map f xs) = map_option f (find P xs)"
  using assms by (induction xs) auto

lemma day_state_mark:
  assumes ok: "schema_ok d" and m: "mark_attendance sid today now d = Inr (b, d')"
  shows "day_state_of d' u dt = (if u = sid \<and> dt = today then PRESENT else day_state_of d u dt)"
proof (cases "find (\<lambda>r. a_student_id r = sid \<and> a_date r = today) (attendance d)")
  case None
  then have none: "\<forall>r \<in> set (attendance d). \<not> (a_student_id r = sid \<and> a_date r = today)"
    by (simp add: find_None_iff)
  from m None have d': "d' = d\<lparr> attendance := attendance d @
        [\<lparr> a_id = attendance_seq d + 1, a_student_id = sid, a_date = today,
           a_logged_in = 1, a_login_time = Some now \<rparr>],
      attendance_seq := attendance_seq d + 1 \<rparr>"
    by (auto simp: mark_attendance_def insert_attendance_def split: if_splits)
  show ?thesis
  proof (cases "u = sid \<and> dt = today")
    case True
    then show ?thesis using None by (simp add: d' day_state_of_def find_append_cases)
  next
    case False
    then show ?thesis
      by (auto simp: d' day_state_of_def find_append_cases split: option.splits)
  qed
next
  case (Some x)
  let ?upd = "\<lambda>r. if a_id r = a_id x then r\<lparr> a_logged_in := 1, a_login_time := Some now \<rparr> else r"
  from m Some have d': "d' = d\<lparr> attendance := map ?upd (attendance d) \<rparr>"
    by (simp add: mark_attendance_def)
  have xin: "x \<in> set (attendance d)" and xk: "a_student_id x = sid" "a_date x = today"
    using Some by (auto simp: find_Some_iff)
  have inj: "inj_on a_id (set (attendance d))"
    using ok by (simp add: schema_ok_def distinct_map)
  have f: "find (\<lambda>r. a_student_id r = u \<and> a_date r = dt) (map ?upd (attendance d)) =
           map_option ?upd (find (\<lambda>r. a_student_id r = u \<and> a_date r = dt) (attendance d))"
    by (rule find_map_same) auto
  show ?thesis
  proof (cases "u = sid \<and> dt = today")
    case True
    with f have "find (\<lambda>r. a_student_id r = sid \<and> a_date r = today) (map ?upd (attendance d)) =
           map_option ?upd (find (\<lambda>r. a_student_id r = sid \<and> a_date r = today) (attendance d))"
      by simp
    then show ?thesis using True Some by (simp add: d' day_state_of_def)
  next
    case False
    show ?thesis
    proof (cases "find (\<lambda>r. a_student_id r = u \<and> a_date r = dt) (attendance d)")
      case None
      then show ?thesis using False by (simp add: d' day_state_of_def f)
    next
      case (Some r)
      then have rin: "r \<in> set (attendance d)" and rk: "a_student_id r = u" "a_date r = dt"
        by (auto simp: find_Some_iff)
      have "r \<noteq> x" using False rk xk by auto
      then have "a_id r \<noteq> a_id x"
        using inj rin xin by (auto dest: inj_onD)
      then show ?thesis using False Some by (simp add: d' day_state_of_def f)
    qed
  qed
qed

lemma find_new_rows:
  assumes "find (\<lambda>r. a_student_id r = u \<and> a_date r = dt)
             (new_rows n (map (\<lambda>x. (sid, x, 0, None)) ds)) = Some r"
  shows "a_logged_in r = 0 \<and> u = sid \<and> dt \<in> set ds"
proof -
  have "r \<in> set (new_rows n (map (\<lambda>x. (sid, x, 0, None)) ds))"
    and "a_student_id r = u" "a_date r = dt"
    using assms by (auto simp: find_Some_iff)
  then show ?thesis
    using new_rows_absent [of n sid ds] by auto
qed

lemma day_state_backfilled:
  "day_state_of (backfilled d sid s e) u dt = day_state_of d u dt \<or>
   (day_state_of d u dt = NONE \<and> day_state_of (backfilled d sid s e) u dt = ABSENT \<and> u = sid)"
proof (cases "find (\<lambda>r. a_student_id r = u \<and> a_date r = dt) (attendance d)")
  case (Some r)
  then show ?thesis
    by (simp add: day_state_of_def backfilled_def find_append_cases)
next
  case None
  show ?thesis
  proof (cases "find (\<lambda>r. a_student_id r = u \<and> a_date r = dt)
             (new_rows (attendance_seq d) (map (\<lambda>x. (sid, x, 0, None)) (weekdays_between s e)))")
    case None
    then show ?thesis
      using \<open>find _ (attendance d) = None\<close>
      by (simp add: day_state_of_def backfilled_def find_append_cases)
  next
    case (Some r)
    from find_new_rows [OF Some] show ?thesis
      using Some \<open>find _ (attendance d) = None\<close>
      by (simp add: day_state_of_def backfilled_def find_append_cases)
  qed
qed

lemma schema_ok_backfilled:
  assumes ok: "schema_ok d" and e0: "filter (in_window sid s e) (attendance d) = []"
  shows "schema_ok (backfilled d sid s e)"
proof -
  let ?ps = "map (\<lambda>dt. (sid, dt, 0::int, None::int option)) (weekdays_between s e)"
  let ?new = "new_rows (attendance_seq d) ?ps"
  have ids: "map a_id ?new = map (\<lambda>i. attendance_seq d + 1 + int i) [0..<length ?ps]"
    by (rule new_rows_props)
  have d_ids: "distinct (map a_id ?new)"
    unfolding ids by (simp add: distinct_map inj_on_def)
  have big: "\<forall>r \<in> set ?new. attendance_seq d < a_id r"
  proof
    fix r assume "r \<in> set ?new"
    then have "a_id r \<in> set (map a_id ?new)" by simp
    then show "attendance_seq d < a_id r" unfolding ids by auto
  qed
  have le: "\<forall>r \<in> set ?new. a_id r \<le> attendance_seq d + int (length (weekdays_between s e))"
  proof
    fix r assume "r \<in> set ?new"
    then have "a_id r \<in> set (map a_id ?new)" by simp
    then show "a_id r \<le> attendance_seq d + int (length (weekdays_between s e))"
      unfolding ids by auto
  qed
  have keys: "map (\<lambda>r. (a_student_id r, a_date r)) ?new = map (\<lambda>dt. (sid, dt)) (weekdays_between s e)"
  proof -
    have "map (\<lambda>r. (a_student_id r, a_date r)) ?new =
          map (\<lambda>p. (fst p, fst (snd p))) (map (\<lambda>r. (a_student_id r, a_date r, a_logged_in r, a_login_time r)) ?new)"
      by (simp add: comp_def)
    also have "\<dots> = map (\<lambda>p. (fst p, fst (snd p))) ?ps"
      by (simp only: new_rows_props)
    finally show ?thesis by (simp add: comp_def)
  qed
  have d_keys: "distinct (map (\<lambda>r. (a_student_id r, a_date r)) ?new)"
    unfolding keys by (simp add: distinct_map weekdays_between_distinct inj_on_def)
  have disj_keys: "set (map (\<lambda>r. (a_student_id r, a_date r)) (attendance d)) \<inter>
                   set (map (\<lambda>r. (a_student_id r, a_date r)) ?new) = {}"
    unfolding keys using e0
    by (auto simp: filter_empty_conv in_window_def weekdays_between_set)
  have disj_ids: "set (map a_id (attendance d)) \<inter> set (map a_id ?new) = {}"
    using ok big by (fastforce simp: schema_ok_def)
  have old_le: "\<forall>r \<in> set (attendance d). a_id r \<le> attendance_seq d + int (length (weekdays_between s e))"
    using ok by (fastforce simp: schema_ok_def)
  show ?thesis
    using ok d_ids d_keys disj_ids disj_keys le old_le
    unfolding schema_ok_def backfilled_def
    by (auto simp del: set_map)
qed

lemma gap_db:
  assumes r: "get_attendance_percentage cfg sid days0 today d = Inr (st, d')"
  shows "d' = d \<or> (\<exists>s. filter (in_window sid s today) (attendance d) = [] \<and>
                       d' = backfilled d sid s today)"
proof (cases "window_start today (if days0 = 30 then ATTENDANCE_PERIOD_DAYS cfg else days0)")
  case (Inl e)
  from gap_overflow [OF Inl] r show ?thesis by simp
next
  case (Inr s)
  show ?thesis
  proof (cases "filter (in_window sid s today) (attendance d) = []")
    case False
    from gap_existing [OF Inr False] r show ?thesis by auto
  next
    case True
    show ?thesis
    proof (cases "s \<le> today \<and> 3652059 \<le> today")
      case last: True
      from gap_loop_overflow [OF Inr True] last r show ?thesis by simp
    next
      case ok: False
      show ?thesis
      proof (cases "student_exists d sid")
        case ex: True
        from gap_backfill [OF ex Inr True ok] r True show ?thesis by auto
      next
        case nex: False
        from gap_no_student [OF Inr True ok nex r] show ?thesis by simp
      qed
    qed
  qed
qed

lemma history_db:
  assumes "get_attendance_history sid days today d = Inr (h, d')"
  shows "d' = d"
  using assms
  by (auto simp: get_attendance_history_def Let_def split: sum.splits if_splits)

lemma schema_ok_mark:
  assumes ok: "schema_ok d" and m: "mark_attendance sid today now d = Inr (b, d')"
  shows "schema_ok d'"
proof (cases "find (\<lambda>r. a_student_id r = sid \<and> a_date r = today) (attendance d)")
  case (Some x)
  from mark_existing [OF ok Some, of now] m show ?thesis by auto
next
  case None
  show ?thesis
  proof (cases "student_exists d sid")
    case True
    from mark_new [OF ok True None, of now] m show ?thesis by auto
  next
    case False
    then have "mark_attendance sid today now d = Inl IntegrityError"
      using None by (simp add: mark_attendance_def insert_attendance_def)
    then show ?thesis using m by simp
  qed
qed

lemma schema_ok_run_op:
  assumes "schema_ok d"
  shows "schema_ok (run_op cfg x d)"
proof (cases x)
  case (Mark_present sid today now)
  then show ?thesis
    using assms schema_ok_mark [OF assms, of sid today now]
    by (auto split: sum.splits)
next
  case (Percentage sid days today)
  show ?thesis
  proof (cases "get_attendance_percentage cfg sid days today d")
    case (Inl e)
    then show ?thesis using assms Percentage by simp
  next
    case (Inr p)
    obtain st d' where p: "p = (st, d')" by (cases p) auto
    from gap_db [OF Inr [unfolded p]] show ?thesis
      using assms Percentage Inr p schema_ok_backfilled by auto
  qed
next
  case (History sid days today)
  show ?thesis
  proof (cases "get_attendance_history sid days today d")
    case (Inl e)
    then show ?thesis using assms History by simp
  next
    case (Inr p)
    obtain h d' where p: "p = (h, d')" by (cases p) auto
    from history_db [OF Inr [unfolded p]] show ?thesis
      using assms History Inr p by simp
  qed
qed

lemma schema_ok_run_ops:
  "schema_ok d \<Longrightarrow> schema_ok (run_ops cfg xs d)"
  by (induction xs arbitrary: d) (simp_all add: schema_ok_run_op)

lemma step_transition:
  assumes ok: "schema_ok d"
  shows "day_state_of (run_op cfg x d) u dt = day_state_of d u dt \<or>
     (day_state_of d u dt = NONE \<and> day_state_of (run_op cfg x d) u dt = ABSENT \<and>
        (\<exists>days today. x = Percentage u days today)) \<or>
     (day_state_of d u dt \<noteq> PRESENT \<and> day_state_of (run_op cfg x d) u dt = PRESENT \<and>
        (\<exists>now. x = Mark_present u dt now))"
proof (cases x)
  case (Mark_present sid today now)
  show ?thesis
  proof (cases "mark_attendance sid today now d")
    case (Inl e)
    then show ?thesis using Mark_present by simp
  next
    case (Inr p)
    obtain b d' where p: "p = (b, d')" by (cases p) auto
    from day_state_mark [OF ok Inr [unfolded p], of u dt] show ?thesis
      using Mark_present Inr p by (cases "day_state_of d u dt") auto
  qed
next
  case (Percentage sid days today)
  show ?thesis
  proof (cases "get_attendance_percentage cfg sid days today d")
    case (Inl e)
    then show ?thesis using Percentage by simp
  next
    case (Inr p)
    obtain st d' where p: "p = (st, d')" by (cases p) auto
    from gap_db [OF Inr [unfolded p]] show ?thesis
      using Percentage Inr p day_state_backfilled [of d sid _ today u dt]
      by auto
  qed
next
  case (History sid days today)
  show ?thesis
  proof (cases "get_attendance_history sid days today d")
    case (Inl e)
    then show ?thesis using History by simp
  next
    case (Inr p)
    obtain h d' where p: "p = (h, d')" by (cases p) auto
    from history_db [OF Inr [unfolded p]] show ?thesis
      using History Inr p by simp
  qed
qed

text \<open>
  Claim C9. In a database that satisfies the schema, a day's record that is present stays
  present under any sequence of \<open>mark_attendance\<close>, \<open>get_attendance_percentage\<close> and
  \<open>get_attendance_history\<close> calls, for whatever users, windows and days. Every single
  operation leaves the state of a day as it is, or takes it from NONE to ABSENT (only a
  percentage query of that user does), or from NONE or ABSENT to PRESENT (only a login of
  that user on that day does); the schema is kept, so this holds at every step of a run.
\<close>

theorem present_never_reverts:
  assumes "schema_ok d"
  shows "(day_state_of d u dt = PRESENT \<longrightarrow> day_state_of (run_ops cfg xs d) u dt = PRESENT) \<and>
     schema_ok (run_ops cfg xs d) \<and>
     (\<forall>x. day_state_of (run_op cfg x d) u dt = day_state_of d u dt \<or>
        (day_state_of d u dt = NONE \<and> day_state_of (run_op cfg x d) u dt = ABSENT \<and>
           (\<exists>days today. x = Percentage u days today)) \<or>
        (day_state_of d u dt \<noteq> PRESENT \<and> day_state_of (run_op cfg x d) u dt = PRESENT \<and>
           (\<exists>now. x = Mark_present u dt now)))"
proof -
  have keep: "schema_ok d \<Longrightarrow> day_state_of d u dt = PRESENT \<Longrightarrow>
              day_state_of (run_ops cfg xs d) u dt = PRESENT" for d
  proof (induction xs arbitrary: d)
    case Nil
    then show ?case by simp
  next
    case (Cons x xs)
    have "day_state_of (run_op cfg x d) u dt = PRESENT"
      using step_transition [OF Cons.prems(1), of cfg x u dt] Cons.prems(2) by auto
    then show ?case
      using Cons.IH [OF schema_ok_run_op [OF Cons.prems(1)]] by simp
  qed
  show ?thesis
    using keep [OF assms] schema_ok_run_ops [OF assms] step_transition [OF assms]
    by blast
qed

theorem present_never_reverts_witness:
  "schema_ok marked_alice_db \<and> day_state_of marked_alice_db 1 739924 = PRESENT \<and>
   day_state_of
     (run_ops config_py [Percentage 1 7 739924, History 1 7 739924, Mark_present 1 739924 200,
                         Percentage 1 30 739925] marked_alice_db) 1 739924 = PRESENT"
proof -
  have h: "schema_ok marked_alice_db"
    by (simp add: schema_ok_def marked_alice_db_def)
  have p: "day_state_of marked_alice_db 1 739924 = PRESENT"
    by (simp add: day_state_of_def marked_alice_db_def)
  show ?thesis
    using present_never_reverts [OF h, of 1 739924 config_py
        "[Percentage 1 7 739924, History 1 7 739924, Mark_present 1 739924 200, Percentage 1 30 739925]"]
      h p by simp
qed

lemma float_full: "float_round2 (float_mul (int_truediv 1 1) 100) = 100"
  by code_simp

text \<open>
  Claim C4, as amended. Starting from a ledger with no row of an existing student, the
  login succeeds, and the 7-day percentage query that follows returns
  \<open>present_days = 1\<close>, \<open>total_days = 1\<close> and \<open>percentage = 100.0\<close>, on any day of the
  week: the row written by the login makes the window non-empty, so nothing is backfilled.
  (Only in the first six days of the calendar, where the window would start before
  0001-01-01, the query raises \<open>OverflowError\<close> instead.)
\<close>

theorem first_login_percentage:
  assumes ex: "student_exists d sid"
    and fresh: "\<forall>r \<in> set (attendance d). a_student_id r \<noteq> sid"
  shows "\<exists>d1. mark_attendance sid today now d = Inr (True, d1) \<and>
           (if is_date (today - 6)
            then \<exists>st d2. get_attendance_percentage cfg sid 7 today d1 = Inr (st, d2) \<and>
                   present_days st = 1 \<and> total_days st = 1 \<and> percentage st = 100
            else get_attendance_percentage cfg sid 7 today d1 = Inl OverflowError)"
proof -
  let ?r = "\<lparr> a_id = attendance_seq d + 1, a_student_id = sid, a_date = today,
              a_logged_in = 1, a_login_time = Some now \<rparr>"
  let ?d1 = "d\<lparr> attendance := attendance d @ [?r], attendance_seq := attendance_seq d + 1 \<rparr>"
  have none: "find (\<lambda>r. a_student_id r = sid \<and> a_date r = today) (attendance d) = None"
    using fresh by (auto simp: find_None_iff)
  have m: "mark_attendance sid today now d = Inr (True, ?d1)"
    using none ex fresh by (simp add: mark_attendance_def insert_attendance_def)
  show ?thesis
  proof (cases "is_date (today - 6)")
    case False
    then have "window_start today (if (7::int) = 30 then ATTENDANCE_PERIOD_DAYS cfg else 7)
                 = Inl OverflowError"
      by (simp add: window_start_eq)
    from gap_overflow [OF this] show ?thesis
      using m False by simp
  next
    case True
    then have ws: "window_start today (if (7::int) = 30 then ATTENDANCE_PERIOD_DAYS cfg else 7)
                 = Inr (today - 6)"
      by (simp add: window_start_eq)
    have old: "filter (in_window sid (today - 6) today) (attendance d) = []"
      using fresh by (auto simp: filter_empty_conv in_window_def)
    have old1: "filter (\<lambda>r. in_window sid (today - 6) today r \<and> a_logged_in r = 1) (attendance d) = []"
      using fresh by (auto simp: filter_empty_conv in_window_def)
    have w: "filter (in_window sid (today - 6) today) (attendance ?d1) = [?r]"
      using old by (simp add: in_window_def)
    have w1: "filter (\<lambda>r. in_window sid (today - 6) today r \<and> a_logged_in r = 1) (attendance ?d1) = [?r]"
      using old1 by (simp add: in_window_def)
    have ne: "filter (in_window sid (today - 6) today) (attendance ?d1) \<noteq> []"
      unfolding w by simp
    from gap_existing [OF ws ne] obtain st where
      st: "get_attendance_percentage cfg sid 7 today ?d1 = Inr (st, ?d1)"
        "total_days st = length (filter (in_window sid (today - 6) today) (attendance ?d1))"
        "present_days st = length (filter (\<lambda>r. in_window sid (today - 6) today r \<and> a_logged_in r = 1) (attendance ?d1))"
        "percentage st = float_round2 (float_mul (int_truediv (int (present_days st)) (int (total_days st))) 100)"
      by auto
    have t: "total_days st = 1" using st(2) unfolding w by simp
    have pr: "present_days st = 1" using st(3) unfolding w1 by simp
    have "percentage st = 100" using st(4) t pr float_full by simp
    then show ?thesis using m st(1) t pr True by auto
  qed
qed

theorem first_login_percentage_witness:
  "student_exists alice_db 1 \<and> attendance alice_db = [] \<and> is_date (739924 - 6) \<and>
   (\<exists>d1 st d2. mark_attendance 1 739924 100 alice_db = Inr (True, d1) \<and>
      get_attendance_percentage config_py 1 7 739924 d1 = Inr (st, d2) \<and>
      present_days st = 1 \<and> total_days st = 1 \<and> percentage st = 100)"
proof -
  have h1: "student_exists alice_db 1"
    by (simp add: student_exists_def alice_db_def)
  have h2: "\<forall>r \<in> set (attendance alice_db). a_student_id r \<noteq> 1"
    by (simp add: alice_db_def)
  have h3: "is_date (739924 - 6)"
    by (simp add: is_date_def)
  show ?thesis
    using first_login_percentage [OF h1 h2, of 739924 100 config_py] h1 h3
    by (auto simp: alice_db_def)
qed

text \<open>
  Claim C4 as stated fails: on Wednesday 2026-11-04, after the login of alice on an empty
  ledger, the 7-day query returns 100.0 over one row, not 20.0 over five.
\<close>

theorem first_login_percentage_not_20:
  "weekday 739924 = 2 \<and> attendance alice_db = [] \<and>
   mark_attendance 1 739924 100 alice_db = Inr (True, marked_alice_db) \<and>
   (\<exists>st. get_attendance_percentage config_py 1 7 739924 marked_alice_db = Inr (st, marked_alice_db) \<and>
      present_days st = 1 \<and> total_days st = 1 \<and> percentage st = 100 \<and> percentage st \<noteq> 20)"
proof -
  have wd: "weekday 739924 = 2" by (simp add: weekday_def)
  have m: "mark_attendance 1 739924 100 alice_db = Inr (True, marked_alice_db)"
    by (simp add: mark_attendance_def insert_attendance_def student_exists_def alice_db_def
        marked_alice_db_def)
  have g: "get_attendance_percentage config_py 1 7 739924 marked_alice_db =
      Inr (\<lparr> percentage = 100, present_days = 1, total_days = 1,
              start_date = 739918, end_date = 739924 \<rparr>, marked_alice_db)"
    by (simp add: get_attendance_percentage_def Let_def window_start_eq is_date_def
        marked_alice_db_def alice_db_def in_window_def float_full)
  show ?thesis using wd m g by (simp add: alice_db_def)
qed

lemma history_eq:
  assumes "is_date today" and "is_date (today - (days - 1))"
  shows "get_attendance_history sid days today d =
     Inr (if filter (in_window sid (today - (days - 1)) today) (attendance d) = []
          then [(today, 0, None)]
          else map (\<lambda>r. (a_date r, a_logged_in r, a_login_time r))
                 (rev (sort_key a_date
                    (filter (in_window sid (today - (days - 1)) today) (attendance d)))), d)"
proof -
  have "sort_key a_date xs = [] \<longleftrightarrow> xs = []" for xs :: "attendance_row list"
    by (metis length_0_conv length_sort)
  then show ?thesis
    using window_start_dates [OF assms]
    by (simp add: get_attendance_history_def Let_def)
qed




lemma validate_cases:
  "snd (Session_validate token now d) = d \<and>
   (case fst (Session_validate token now d) of
      Some sid \<Rightarrow> \<exists>s \<in> set (sessions d).
                    ss_session_token s = token \<and> now < ss_expires_at s \<and> ss_student_id s = sid
    | None \<Rightarrow> \<not> (\<exists>s \<in> set (sessions d). ss_session_token s = token \<and> now < ss_expires_at s))"
proof (cases "find (\<lambda>s. ss_session_token s = token \<and> ss_expires_at s > now) (sessions d)")
  case None
  then have v: "Session_validate token now d = (None, d)"
    by (simp add: Session_validate_def)
  have "\<not> (\<exists>s \<in> set (sessions d). ss_session_token s = token \<and> now < ss_expires_at s)"
    using None by (auto simp: find_None_iff)
  then show ?thesis
    unfolding v by simp
next
  case (Some r)
  then have v: "Session_validate token now d = (Some (ss_student_id r), d)"
    by (simp add: Session_validate_def)
  have "r \<in> set (sessions d) \<and> ss_session_token r = token \<and> now < ss_expires_at r"
    using Some by (auto simp: find_Some_iff)
  then show ?thesis
    unfolding v by auto
qed

lemma validate_created:
  assumes ex: "student_exists d sid"
    and fresh: "\<forall>s \<in> set (sessions d). ss_session_token s \<noteq> token"
  shows "\<exists>d'. Session_create cfg sid token now d = Inr (token, d') \<and>
           fst (Session_validate token now' d') =
             (if now' < now + timedelta_hours 24 then Some sid else None)"
proof -
  let ?row = "\<lparr> ss_id = sessions_seq d + 1, ss_student_id = sid, ss_session_token = token,
                ss_expires_at = now + timedelta_hours 24 \<rparr>"
  let ?d' = "d\<lparr> sessions := sessions d @ [?row], sessions_seq := sessions_seq d + 1 \<rparr>"
  have c: "Session_create cfg sid token now d = Inr (token, ?d')"
    using ex by (simp add: Session_create_def Let_def)
  have old: "find (\<lambda>s. ss_session_token s = token \<and> ss_expires_at s > now') (sessions d) = None"
    using fresh by (auto simp: find_None_iff)
  have "find (\<lambda>s. ss_session_token s = token \<and> ss_expires_at s > now') (sessions ?d') =
        (if now' < now + timedelta_hours 24 then Some ?row else None)"
    using old by (simp add: find_append_cases)
  then have "fst (Session_validate token now' ?d') =
             (if now' < now + timedelta_hours 24 then Some sid else None)"
    by (simp add: Session_validate_def)
  then show ?thesis using c by blast
qed

text \<open>
  Claim C7. \<open>Session.validate\<close> never changes the database. It returns a student id only
  for a stored row of that token and student whose expiry is strictly later than the instant
  of validation, and returns None exactly when no row of the token has such an expiry (an
  unknown token, or expired rows only, which stay stored). A session created for an
  existing student under a token not yet in use validates to that student from the
  instant of its creation until its expiry, and to None from the expiry instant on.
\<close>

theorem session_validate:
  "snd (Session_validate token now d) = d \<and>
   (case fst (Session_validate token now d) of
      Some sid \<Rightarrow> \<exists>s \<in> set (sessions d).
                    ss_session_token s = token \<and> now < ss_expires_at s \<and> ss_student_id s = sid
    | None \<Rightarrow> \<not> (\<exists>s \<in> set (sessions d). ss_session_token s = token \<and> now < ss_expires_at s)) \<and>
   (student_exists d sid' \<and> (\<forall>s \<in> set (sessions d). ss_session_token s \<noteq> token') \<longrightarrow>
      (\<exists>d'. Session_create cfg sid' token' now d = Inr (token', d') \<and>
         fst (Session_validate token' now d') = Some sid' \<and>
         (\<forall>t. fst (Session_validate token' t d') =
                (if t < now + timedelta_hours 24 then Some sid' else None))))"
proof -
  have third: "\<exists>d'. Session_create cfg sid' token' now d = Inr (token', d') \<and>
         fst (Session_validate token' now d') = Some sid' \<and>
         (\<forall>t. fst (Session_validate token' t d') =
                (if t < now + timedelta_hours 24 then Some sid' else None))"
    if ex: "student_exists d sid'" and fresh: "\<forall>s \<in> set (sessions d). ss_session_token s \<noteq> token'"
  proof -
    from validate_created [OF ex fresh, of cfg now now] obtain d' where
      c: "Session_create cfg sid' token' now d = Inr (token', d')" by blast
    have all: "fst (Session_validate token' t d') =
                (if t < now + timedelta_hours 24 then Some sid' else None)" for t
      using validate_created [OF ex fresh, of cfg now t] c by auto
    have "fst (Session_validate token' now d') = Some sid'"
      using all [of now] by (simp add: timedelta_hours_def)
    then show ?thesis using c all by blast
  qed
  show ?thesis
    using validate_cases [of token now d] third by blast
qed

theorem session_validate_witness:
  "student_exists alice_db 1 \<and> sessions alice_db = [] \<and>
   fst (Session_validate ''abc'' 5 alice_db) = None \<and>
   (\<exists>d'. Session_create config_py 1 ''abc'' 5 alice_db = Inr (''abc'', d') \<and>
      fst (Session_validate ''abc'' 5 d') = Some 1 \<and>
      fst (Session_validate ''abc'' 86400000005 d') = None \<and>
      snd (Session_validate ''abc'' 86400000005 d') = d')"
proof -
  have h1: "student_exists alice_db 1"
    by (simp add: student_exists_def alice_db_def)
  have h2: "sessions alice_db = []"
    by (simp add: alice_db_def)
  have n: "fst (Session_validate ''abc'' 5 alice_db) = None"
    using session_validate [of "''abc''" 5 alice_db 1 "''abc''" config_py] h2
    by (auto split: option.splits)
  from session_validate [of "''abc''" 5 alice_db 1 "''abc''" config_py] h1 h2
  obtain d' where c: "Session_create config_py 1 ''abc'' 5 alice_db = Inr (''abc'', d')"
    and v: "fst (Session_validate ''abc'' 5 d') = Some 1"
    and a: "\<forall>t. fst (Session_validate ''abc'' t d') =
                (if t < 5 + timedelta_hours 24 then Some 1 else None)"
    by auto
  have e: "fst (Session_validate ''abc'' 86400000005 d') = None"
    using a by (simp add: timedelta_hours_def)
  have s: "snd (Session_validate ''abc'' 86400000005 d') = d'"
    by (simp add: Session_validate_def split: option.splits)
  show ?thesis using h1 h2 n c v e s by blast
qed

text \<open>
  Claim C8. When a student row with the same username or the same email exists,
  \<open>Student.create\<close> returns False with the database unchanged, and the integrity error
  of the storage layer is not propagated; otherwise it returns True and the students table
  gains exactly the new row, with the hashed password, the other tables staying as they are.
\<close>

theorem student_create_unique:
  "(if \<exists>s \<in> set (students d). s_username s = username \<or> s_email s = email
    then Student_create sha256 username password name email d = Inr (False, d)
    else \<exists>d'. Student_create sha256 username password name email d = Inr (True, d') \<and>
           students d' = students d @
             [\<lparr> s_id = students_seq d + 1, s_username = username, s_password = sha256 password,
                s_name = name, s_email = email \<rparr>] \<and>
           attendance d' = attendance d \<and> sessions d' = sessions d)"
  by (simp add: Student_create_def insert_student_def Let_def)

theorem student_create_unique_witness:
  "Student_create (\<lambda>p. ''h'') ''alice'' ''pw2'' ''Other'' ''other@example.com'' alice_db
     = Inr (False, alice_db) \<and>
   Student_create (\<lambda>p. ''h'') ''bob'' ''pw2'' ''Other'' ''alice@example.com'' alice_db
     = Inr (False, alice_db) \<and>
   (\<exists>d'. Student_create (\<lambda>p. ''h'') ''bob'' ''pw2'' ''Bob'' ''bob@example.com'' alice_db
     = Inr (True, d') \<and> map s_username (students d') = [''alice'', ''bob''])"
  using student_create_unique [of alice_db "''alice''" "''other@example.com''" "\<lambda>p. ''h''" "''pw2''" "''Other''"]
    student_create_unique [of alice_db "''bob''" "''alice@example.com''" "\<lambda>p. ''h''" "''pw2''" "''Other''"]
    student_create_unique [of alice_db "''bob''" "''bob@example.com''" "\<lambda>p. ''h''" "''pw2''" "''Bob''"]
  by (auto simp: alice_db_def)

lemma gap_window:
  assumes ex: "student_exists d sid"
    and ws: "window_start today (if days = 30 then ATTENDANCE_PERIOD_DAYS cfg else days) = Inr s"
    and ok: "is_date (today + 1)"
  shows "\<exists>st d'. get_attendance_percentage cfg sid days today d = Inr (st, d') \<and>
     end_date st = today \<and> start_date st = s \<and>
     total_days st = length (filter (in_window sid s today) (attendance d'))"
proof (cases "filter (in_window sid s today) (attendance d) = []")
  case True
  have ok': "\<not> (s \<le> today \<and> 3652059 \<le> today)"
    using ok by (simp add: is_date_def)
  show ?thesis
    using gap_backfill [OF ex ws True ok'] True
    by (simp add: backfilled_def filter_window_new new_rows_props)
next
  case False
  from gap_existing [OF ws False] show ?thesis by auto
qed

text \<open>
  Claim C10. A call of \<open>get_attendance_percentage\<close> with \<open>days = 30\<close> behaves in every
  respect (result, rows written, error) as the call with \<open>days\<close> set to the configured
  \<open>ATTENDANCE_PERIOD_DAYS\<close>. For a student of the database the window of the result starts
  \<open>w - 1\<close> days before today and the rows are counted over it, where \<open>w\<close> is the
  configured period when \<open>days\<close> is 30 and \<open>days\<close> itself otherwise (the first day of
  that window being a date, and today not the last date of the calendar).
  \<open>get_attendance_history\<close> takes no configuration: with \<open>days = 30\<close> it returns the
  rows of the 30 days ending today, whatever the configured period is.
\<close>

theorem configured_window:
  "get_attendance_percentage cfg sid 30 today d =
     get_attendance_percentage cfg sid (ATTENDANCE_PERIOD_DAYS cfg) today d \<and>
   (student_exists d sid \<and> is_date today \<and> is_date (today + 1) \<and>
    is_date (today - ((if days = 30 then ATTENDANCE_PERIOD_DAYS cfg else days) - 1)) \<longrightarrow>
      (\<exists>st d'. get_attendance_percentage cfg sid days today d = Inr (st, d') \<and>
         end_date st = today \<and>
         start_date st = today - ((if days = 30 then ATTENDANCE_PERIOD_DAYS cfg else days) - 1) \<and>
         total_days st = length (filter (in_window sid (start_date st) today) (attendance d')))) \<and>
   (is_date today \<and> is_date (today - 29) \<longrightarrow>
      (\<exists>h. get_attendance_history sid 30 today d = Inr (h, d) \<and>
         (if filter (in_window sid (today - 29) today) (attendance d) = []
          then h = [(today, 0, None)]
          else mset h = mset (map (\<lambda>r. (a_date r, a_logged_in r, a_login_time r))
                               (filter (in_window sid (today - 29) today) (attendance d))))))"
proof -
  have a: "get_attendance_percentage cfg sid 30 today d =
           get_attendance_percentage cfg sid (ATTENDANCE_PERIOD_DAYS cfg) today d"
    by (simp add: get_attendance_percentage_def)
  have b: "\<exists>st d'. get_attendance_percentage cfg sid days today d = Inr (st, d') \<and>
         end_date st = today \<and>
         start_date st = today - ((if days = 30 then ATTENDANCE_PERIOD_DAYS cfg else days) - 1) \<and>
         total_days st = length (filter (in_window sid (start_date st) today) (attendance d'))"
    if h: "student_exists d sid" "is_date today" "is_date (today + 1)"
      "is_date (today - ((if days = 30 then ATTENDANCE_PERIOD_DAYS cfg else days) - 1))"
  proof -
    from window_start_dates [OF h(2,4)] gap_window [OF h(1) _ h(3)]
    show ?thesis by fastforce
  qed
  have c: "\<exists>h. get_attendance_history sid 30 today d = Inr (h, d) \<and>
         (if filter (in_window sid (today - 29) today) (attendance d) = []
          then h = [(today, 0, None)]
          else mset h = mset (map (\<lambda>r. (a_date r, a_logged_in r, a_login_time r))
                               (filter (in_window sid (today - 29) today) (attendance d))))"
    if h: "is_date today" "is_date (today - 29)"
  proof -
    have h2: "is_date (today - (30 - 1))" using h(2) by simp
    show ?thesis
      using history_eq [OF h(1) h2, of sid d] by simp
  qed
  show ?thesis using a b c by blast
qed

theorem configured_window_witness:
  "student_exists ten_days_alice_db 1 \<and> is_date 739924 \<and> is_date (739924 + 1) \<and>
   is_date (739924 - (7 - 1)) \<and> is_date (739924 - 29) \<and>
   (\<exists>st d'. get_attendance_percentage (config_py\<lparr>ATTENDANCE_PERIOD_DAYS := 7\<rparr>) 1 30 739924
               ten_days_alice_db = Inr (st, d') \<and>
      start_date st = 739918 \<and> end_date st = 739924 \<and> total_days st = 1) \<and>
   (\<exists>st d'. get_attendance_percentage (config_py\<lparr>ATTENDANCE_PERIOD_DAYS := 7\<rparr>) 1 14 739924
               ten_days_alice_db = Inr (st, d') \<and>
      start_date st = 739911 \<and> end_date st = 739924 \<and> total_days st = 2) \<and>
   (\<exists>h. get_attendance_history 1 30 739924 ten_days_alice_db = Inr (h, ten_days_alice_db) \<and>
      mset h = {#(739924, 1, Some 200), (739914, 1, Some 100)#})"
proof -
  let ?cfg = "config_py\<lparr>ATTENDANCE_PERIOD_DAYS := 7\<rparr>"
  have h1: "student_exists ten_days_alice_db 1"
    by (simp add: student_exists_def ten_days_alice_db_def alice_db_def)
  have h2: "is_date 739924" and h3: "is_date (739924 + 1)" and h4: "is_date (739924 - (7 - 1))"
    and h5: "is_date (739924 - 29)" and h6: "is_date (739924 - (14 - 1))"
    by (simp_all add: is_date_def)
  have g30: "get_attendance_percentage ?cfg 1 30 739924 ten_days_alice_db =
      Inr (\<lparr> percentage = 100, present_days = 1, total_days = 1,
              start_date = 739918, end_date = 739924 \<rparr>, ten_days_alice_db)"
    by (simp add: get_attendance_percentage_def Let_def window_start_eq is_date_def
        ten_days_alice_db_def alice_db_def in_window_def float_full)
  have f22: "float_round2 (float_mul (int_truediv 2 2) 100) = 100"
    by code_simp
  have g14: "get_attendance_percentage ?cfg 1 14 739924 ten_days_alice_db =
      Inr (\<lparr> percentage = 100, present_days = 2, total_days = 2,
              start_date = 739911, end_date = 739924 \<rparr>, ten_days_alice_db)"
    by (simp add: get_attendance_percentage_def Let_def window_start_eq is_date_def
        ten_days_alice_db_def alice_db_def in_window_def f22)
  have w: "filter (in_window 1 (739924 - 29) 739924) (attendance ten_days_alice_db) =
           attendance ten_days_alice_db"
    by (simp add: ten_days_alice_db_def in_window_def)
  have ne: "attendance ten_days_alice_db \<noteq> []"
    by (simp add: ten_days_alice_db_def)
  from configured_window [of ?cfg 1 739924 ten_days_alice_db 30] h2 h5
  obtain h where h: "get_attendance_history 1 30 739924 ten_days_alice_db = Inr (h, ten_days_alice_db)"
    "if filter (in_window 1 (739924 - 29) 739924) (attendance ten_days_alice_db) = []
     then h = [(739924, 0, None)]
     else mset h = mset (map (\<lambda>r. (a_date r, a_logged_in r, a_login_time r))
            (filter (in_window 1 (739924 - 29) 739924) (attendance ten_days_alice_db)))"
    by blast
  have m: "mset h = {#(739924, 1, Some 200), (739914, 1, Some 100)#}"
    using h(2) unfolding w using ne by (simp add: ten_days_alice_db_def)
  show ?thesis
    using h1 h2 h3 h4 h5 g30 g14 h(1) m by simp
qed

text \<open>
  Claim C5 at a configuration with \<open>SESSION_LIFETIME = 48\<close>: \<open>Session.create\<close> does what
  it does under config.py, and the stored expiry is 24 hours after the creation, not the
  48 hours configured.
\<close>

theorem session_lifetime_hard_coded:
  "Session_create (config_py\<lparr>SESSION_LIFETIME := 48\<rparr>) 1 ''abc'' 0 alice_db =
     Session_create config_py 1 ''abc'' 0 alice_db \<and>
   (\<exists>d'. Session_create (config_py\<lparr>SESSION_LIFETIME := 48\<rparr>) 1 ''abc'' 0 alice_db = Inr (''abc'', d') \<and>
      map ss_expires_at (sessions d') = [0 + timedelta_hours 24] \<and>
      0 + timedelta_hours 24 \<noteq>
        0 + timedelta_hours (SESSION_LIFETIME (config_py\<lparr>SESSION_LIFETIME := 48\<rparr>)))"
  by (simp add: Session_create_def Let_def student_exists_def alice_db_def timedelta_hours_def)

end
